theory Spec2Isabelle
  imports Complex_Main
begin

section \<open>Data model\<close>

text \<open>
  Python floats are modelled as \<^typ>\<open>real\<close>: the thresholds and coefficients of the
  source are read as the decimal numbers they are written as, and arithmetic is exact
  (no rounding, no NaN). A timestamp is its day number. A table read from a CSV file is
  the list of its rows, in file order, after the source's column renaming; a cell of the
  historical table is \<open>None\<close> when the table does not have that column, and for
  \<open>river_level\<close> also when the cell is empty (the source tests \<^verbatim>\<open>pd.isna\<close> there).
  \<^verbatim>\<open>sort_values("date")\<close> is a stable sort here; pandas leaves the order of rows of
  the same date open, and no statement below depends on it.
\<close>

type_synonym date = int

type_synonym series = "(date \<times> real) list"

record hist_row =
  h_date :: date
  h_upstream_rain :: "real option"
  h_gurd_rain :: "real option"
  h_local_rain :: "real option"
  h_river_level :: "real option"

record forecast_row =
  row_date :: date
  row_local_rain :: real
  row_upstream_rain :: real
  row_pred_river_level :: real
  row_flood_probability :: real
  row_risk_class :: string

text \<open>
  A persisted artifact is missing, present but not loadable, or loadable. A trained
  predictor is the function from the aligned feature row to its prediction
  (\<^verbatim>\<open>model.predict(X)[0]\<close>, \<^verbatim>\<open>clf.predict_proba(X)[0,1]\<close>).
\<close>

datatype 'a artifact = Missing | Unreadable | Readable 'a

type_synonym predictor = "real list \<Rightarrow> real"

datatype error = FileNotFoundError | LoadError | KeyError

text \<open>The working directory of the two prediction scripts, one field per file.\<close>

record files =
  cleaned_data :: "hist_row list option"
  upstream_forecast_gfs :: "series option"
  forecast_rainfall :: "series option"
  river_model :: "predictor artifact"
  river_feature_order :: "string list artifact"
  flood_model :: "predictor artifact"
  flood_feature_order :: "string list artifact"
  predicted_river_level :: "series option"
  flood_forecast :: "forecast_row list option"

text \<open>
  What the scripts take from outside the repository: numpy's least-squares fit of
  \<open>y = a * x + b\<close>, pandas' calendar fields of a timestamp, and the current UTC day.
\<close>

record externals =
  np_lstsq :: "(real \<times> real) list \<Rightarrow> real \<times> real"
  month_of :: "date \<Rightarrow> int"
  dayofyear_of :: "date \<Rightarrow> int"
  utc_today :: date

definition sort_by_date :: "(date \<times> 'a) list \<Rightarrow> (date \<times> 'a) list" where
  "sort_by_date df = sort_key fst df"

fun exists :: "'a artifact \<Rightarrow> bool" where
  "exists Missing = False"
| "exists Unreadable = True"
| "exists (Readable x) = True"

section \<open>Risk classifier (predict\_flood.py)\<close>

definition classify_prob :: "real \<Rightarrow> string" where
  "classify_prob p =
     (if p < 0.10 then ''No''
      else if p < 0.30 then ''Low''
      else if p < 0.60 then ''Moderate''
      else ''High'')"

section \<open>Lag buffers\<close>

text \<open>
  Both forecasters keep their lags newest-first, update them with
  \<^verbatim>\<open>lags = [today] + lags[:-1]\<close> and take rolling sums \<^verbatim>\<open>sum(lags[:k])\<close>.
\<close>

definition push_lag :: "real \<Rightarrow> real list \<Rightarrow> real list" where
  "push_lag today lags = [today] @ butlast lags"

definition roll :: "nat \<Rightarrow> real list \<Rightarrow> real" where
  "roll k lags = sum_list (take k lags)"

fun push_all :: "real list \<Rightarrow> real list \<Rightarrow> real list" where
  "push_all [] lags = lags"
| "push_all (v # vs) lags = push_all vs (push_lag v lags)"

section \<open>Predictor artifacts\<close>

text \<open>
  \<^verbatim>\<open>
  def load_model_and_feats():
      if os.path.exists(MODEL_FILE) and os.path.exists(FEATURE_FILE):
          with open(MODEL_FILE, "rb") as f: model = pickle.load(f)
          with open(FEATURE_FILE) as f: feat_order = [l.strip() for l in f if l.strip()]
          return model, feat_order
      return None, None
  \<close>
  The function is the same in both scripts but for the file names. Opening or unpickling
  a file that exists and cannot be read raises; nothing in the function catches it.
\<close>

definition load_model_and_feats ::
  "predictor artifact \<Rightarrow> string list artifact \<Rightarrow> error + (predictor \<times> string list) option" where
  "load_model_and_feats model_file feature_file =
     (if exists model_file \<and> exists feature_file then
        (case model_file of
           Readable model \<Rightarrow>
             (case feature_file of
                Readable feat_order \<Rightarrow> Inr (Some (model, feat_order))
              | _ \<Rightarrow> Inl LoadError)
         | _ \<Rightarrow> Inl LoadError)
      else Inr None)"

definition align :: "(string \<times> real) list \<Rightarrow> string list \<Rightarrow> real list" where
  "align feat feat_order = map (\<lambda>c. case map_of feat c of Some v \<Rightarrow> v | None \<Rightarrow> 0.0) feat_order"

definition lag_names :: "string \<Rightarrow> string list" where
  "lag_names pre = map (\<lambda>j. pre @ j) [''1'', ''2'', ''3'', ''4'', ''5'', ''6'', ''7'']"

section \<open>Stage 1: predict\_river\_level.py\<close>

definition HORIZON :: nat where
  "HORIZON = 5"

definition hist_sorted :: "files \<Rightarrow> hist_row list" where
  "hist_sorted fs = (case cleaned_data fs of Some hist \<Rightarrow> sort_key h_date hist | None \<Rightarrow> [])"

definition overlap_fit :: "externals \<Rightarrow> files \<Rightarrow> real \<times> real" where
  "overlap_fit ex fs =
     (case cleaned_data fs of
        Some hist \<Rightarrow>
          (let overlap = concat (map (\<lambda>r. case (h_gurd_rain r, h_upstream_rain r) of
                                             (Some g, Some u) \<Rightarrow> [(g, u)] | _ \<Rightarrow> [])
                                     (sort_key h_date hist))
           in if length overlap \<ge> 10 then np_lstsq ex overlap else (1.0, 0.0))
      | None \<Rightarrow> (1.0, 0.0))"

definition river_load_upstream_forecast :: "externals \<Rightarrow> files \<Rightarrow> series" where
  "river_load_upstream_forecast ex fs =
     (case upstream_forecast_gfs fs of
        Some df \<Rightarrow> sort_by_date df
      | None \<Rightarrow>
          (case forecast_rainfall fs of
             Some df_local \<Rightarrow>
               (let (a, b) = overlap_fit ex fs
                in map (\<lambda>(d, local_rain). (d, max 0.0 (a * local_rain + b))) (take HORIZON df_local))
           | None \<Rightarrow> map (\<lambda>i. (utc_today ex + int i, 0.0)) [0..<HORIZON]))"

definition river_feat :: "externals \<Rightarrow> date \<Rightarrow> real list \<Rightarrow> real \<Rightarrow> (string \<times> real) list" where
  "river_feat ex fdate up_lags river_prev =
     zip (lag_names ''up_lag_'') up_lags @
     [(''up_roll_3'', roll 3 up_lags), (''up_roll_5'', roll 5 up_lags), (''up_roll_7'', roll 7 up_lags),
      (''river_lag_1'', river_prev),
      (''month'', real_of_int (month_of ex fdate)),
      (''doy'', real_of_int (dayofyear_of ex fdate))]"

definition heuristic_river :: "real \<Rightarrow> real \<Rightarrow> real \<Rightarrow> real" where
  "heuristic_river river_prev roll3 upstream_today =
     (let base = (if river_prev \<noteq> 0 then river_prev else 349.5);
          pred = base + 0.12 * roll3 + 0.02 * upstream_today
      in 0.6 * pred + 0.4 * river_prev)"

text \<open>One pass of the loop body: the state is \<open>(up_lags, river_prev, preds)\<close>.\<close>

definition river_step ::
  "externals \<Rightarrow> (predictor \<times> string list) option \<Rightarrow> real list \<times> real \<times> series \<Rightarrow> date \<times> real
     \<Rightarrow> real list \<times> real \<times> series" where
  "river_step ex use_model st row =
     (case st of (up_lags0, river_prev, preds) \<Rightarrow>
      case row of (fdate, upstream_today) \<Rightarrow>
        (let up_lags = push_lag upstream_today up_lags0;
             roll3 = roll 3 up_lags;
             pred = (case use_model of
                       Some (model, feat_order) \<Rightarrow>
                         model (align (river_feat ex fdate up_lags river_prev) feat_order)
                     | None \<Rightarrow> heuristic_river river_prev roll3 upstream_today)
         in (up_lags, pred, preds @ [(fdate, pred)])))"

definition river_last_up :: "hist_row list \<Rightarrow> real" where
  "river_last_up hist =
     (if hist \<noteq> [] then (case h_upstream_rain (last hist) of Some v \<Rightarrow> v | None \<Rightarrow> 0.0) else 0.0)"

definition last_river_of :: "hist_row list \<Rightarrow> real" where
  "last_river_of hist =
     (if hist \<noteq> [] then (case h_river_level (last hist) of Some v \<Rightarrow> v | None \<Rightarrow> 0.0) else 0.0)"

definition river_up_fc :: "externals \<Rightarrow> files \<Rightarrow> series" where
  "river_up_fc ex fs = take HORIZON (sort_by_date (river_load_upstream_forecast ex fs))"

definition river_loop ::
  "externals \<Rightarrow> (predictor \<times> string list) option \<Rightarrow> real \<Rightarrow> real \<Rightarrow> series
     \<Rightarrow> real list \<times> real \<times> series" where
  "river_loop ex use_model last_up last_river up_fc =
     foldl (river_step ex use_model) (replicate 7 last_up, last_river, []) up_fc"

text \<open>
  \<open>Inl e\<close>: the exception \<open>e\<close> left \<open>main\<close> before the output file was touched;
  \<open>Inr fs'\<close>: \<open>main\<close> returned and \<open>fs'\<close> holds the freshly written output.
\<close>

definition river_main :: "externals \<Rightarrow> files \<Rightarrow> error + files" where
  "river_main ex fs =
     (let up_fc = river_up_fc ex fs;
          hist = hist_sorted fs;
          last_up = river_last_up hist;
          last_river = last_river_of hist
      in case load_model_and_feats (river_model fs) (river_feature_order fs) of
           Inl e \<Rightarrow> Inl e
         | Inr use_model \<Rightarrow>
             (case river_loop ex use_model last_up last_river up_fc of
                (up_lags, river_prev, preds) \<Rightarrow> Inr (fs\<lparr>predicted_river_level := Some preds\<rparr>)))"

section \<open>Stage 2: predict\_flood.py\<close>

definition load_local_forecast :: "files \<Rightarrow> error + series" where
  "load_local_forecast fs =
     (case forecast_rainfall fs of
        None \<Rightarrow> Inl FileNotFoundError
      | Some df \<Rightarrow> Inr (sort_by_date df))"

definition flood_load_upstream_forecast :: "files \<Rightarrow> error + series" where
  "flood_load_upstream_forecast fs =
     (case upstream_forecast_gfs fs of
        Some df \<Rightarrow> Inr (sort_by_date df)
      | None \<Rightarrow>
          (case load_local_forecast fs of
             Inl e \<Rightarrow> Inl e
           | Inr local \<Rightarrow> Inr (map (\<lambda>(d, local_rain). (d, 0.0)) local)))"

definition load_river_preds :: "files \<Rightarrow> error + series" where
  "load_river_preds fs =
     (case predicted_river_level fs of
        None \<Rightarrow> Inl FileNotFoundError
      | Some df \<Rightarrow> Inr (sort_by_date df))"

definition heuristic_probability :: "real \<Rightarrow> real \<Rightarrow> real \<Rightarrow> real \<Rightarrow> real" where
  "heuristic_probability local_rain upstream_rain pred_river_level baseline =
     (let p = 0.08 * local_rain + 0.06 * upstream_rain + 0.003 * max 0.0 (pred_river_level - baseline)
      in min (max p 0.0) 1.0)"

text \<open>
  \<^verbatim>\<open>pd.merge(left, right, on="date", how="left")\<close>: every left row, in order, once for
  each right row of the same date, and once with an empty cell when there is none.
\<close>

definition merge_left :: "(date \<times> 'a) list \<Rightarrow> series \<Rightarrow> (date \<times> 'a \<times> real option) list" where
  "merge_left left right =
     concat (map (\<lambda>(d, a). case filter (\<lambda>r. fst r = d) right of
                               [] \<Rightarrow> [(d, a, None)]
                             | ms \<Rightarrow> map (\<lambda>r. (d, a, Some (snd r))) ms) left)"

definition fillna :: "real option \<Rightarrow> real" where
  "fillna c = (case c of Some v \<Rightarrow> v | None \<Rightarrow> 0.0)"

text \<open>The merged table of the horizon: rows \<open>(date, pred_river_level, local_rain, upstream_rain)\<close>.\<close>

definition merge_forecasts :: "series \<Rightarrow> series \<Rightarrow> series \<Rightarrow> (date \<times> real \<times> real \<times> real) list" where
  "merge_forecasts df_river df_local df_up =
     map (\<lambda>(d, (pred_river_level, local_rain), upstream_rain).
            (d, pred_river_level, fillna local_rain, fillna upstream_rain))
         (merge_left (merge_left df_river df_local) df_up)"

text \<open>
  The seeds: \<^verbatim>\<open>hist.iloc[-i]\<close> for \<open>i = 1..7\<close> where the history has that many rows,
  \<open>0.0\<close> otherwise.
\<close>

definition seed_lags :: "(hist_row \<Rightarrow> real) \<Rightarrow> hist_row list \<Rightarrow> real list" where
  "seed_lags cell hist =
     map (\<lambda>i. if length hist \<ge> i then cell (hist ! (length hist - i)) else 0.0) [1..<8]"

definition hist_upstream :: "hist_row \<Rightarrow> real" where
  "hist_upstream r = (case h_upstream_rain r of Some v \<Rightarrow> v | None \<Rightarrow> 0.0)"

definition hist_local :: "hist_row \<Rightarrow> real" where
  "hist_local r =
     (case h_gurd_rain r of
        Some v \<Rightarrow> v
      | None \<Rightarrow> (case h_local_rain r of Some v \<Rightarrow> v | None \<Rightarrow> 0.0))"

text \<open>
  \<^verbatim>\<open>
  pred_river_map = dict(zip(df_river["date"], df_river["pred_river_level"]))
  prev_dates = sorted([d for d in pred_river_map.keys() if d < fdate])
  if prev_dates: river_lag_1 = float(pred_river_map[prev_dates[-1]])
  else:          river_lag_1 = last_river
  \<close>
  In the dictionary a later row of the same date replaces an earlier one.
\<close>

definition pred_river_map :: "series \<Rightarrow> date \<rightharpoonup> real" where
  "pred_river_map df_river = map_of (rev df_river)"

definition river_lag_1 :: "series \<Rightarrow> real \<Rightarrow> date \<Rightarrow> error + real" where
  "river_lag_1 df_river last_river fdate =
     (let prev_dates = sort (filter (\<lambda>d. d < fdate) (remdups (map fst df_river)))
      in if prev_dates \<noteq> [] then
           (case pred_river_map df_river (last prev_dates) of
              Some v \<Rightarrow> Inr v
            | None \<Rightarrow> Inl KeyError)
         else Inr last_river)"

definition flood_feat ::
  "externals \<Rightarrow> date \<Rightarrow> real list \<Rightarrow> real list \<Rightarrow> real \<Rightarrow> (string \<times> real) list" where
  "flood_feat ex fdate up_lags local_lags river_lag =
     zip (lag_names ''up_lag_'') up_lags @ zip (lag_names ''local_lag_'') local_lags @
     [(''up_roll_3'', roll 3 up_lags), (''up_roll_5'', roll 5 up_lags), (''up_roll_7'', roll 7 up_lags),
      (''local_roll_3'', roll 3 local_lags), (''local_roll_5'', roll 5 local_lags),
      (''local_roll_7'', roll 7 local_lags),
      (''river_lag_1'', river_lag),
      (''river_present'', if river_lag > 0 then 1 else 0),
      (''month'', real_of_int (month_of ex fdate)),
      (''doy'', real_of_int (dayofyear_of ex fdate))]"

text \<open>
  One pass of the loop body: the state is \<open>(up_lags, local_lags, out_rows)\<close>. The row of
  the merged table always has its \<open>pred_river_level\<close> cell, so \<^verbatim>\<open>row.get\<close> never
  takes its default. \<open>out_row\<close> is the dictionary appended to \<open>out_rows\<close>; its text
  column \<open>flood_probability_pct\<close> is a rendering of \<open>flood_probability\<close> and is left out.
\<close>

definition out_row :: "date \<Rightarrow> real \<Rightarrow> real \<Rightarrow> real \<Rightarrow> real \<Rightarrow> forecast_row" where
  "out_row fdate local_today up_today pred_river_level prob =
     \<lparr>row_date = fdate, row_local_rain = local_today, row_upstream_rain = up_today,
      row_pred_river_level = pred_river_level, row_flood_probability = prob,
      row_risk_class = classify_prob prob\<rparr>"

definition flood_step ::
  "externals \<Rightarrow> (predictor \<times> string list) option \<Rightarrow> series \<Rightarrow> real
     \<Rightarrow> real list \<times> real list \<times> forecast_row list \<Rightarrow> date \<times> real \<times> real \<times> real
     \<Rightarrow> error + real list \<times> real list \<times> forecast_row list" where
  "flood_step ex use_model df_river last_river st row =
     (case st of (up_lags0, local_lags0, out_rows) \<Rightarrow>
      case row of (fdate, pred_river_level, local_today, up_today) \<Rightarrow>
        (let up_lags = push_lag up_today up_lags0;
             local_lags = push_lag local_today local_lags0
         in case river_lag_1 df_river last_river fdate of
              Inl e \<Rightarrow> Inl e
            | Inr river_lag \<Rightarrow>
                (let prob = (case use_model of
                               Some (clf, feat_order) \<Rightarrow>
                                 clf (align (flood_feat ex fdate up_lags local_lags river_lag) feat_order)
                             | None \<Rightarrow>
                                 heuristic_probability local_today up_today pred_river_level 349.5)
                 in Inr (up_lags, local_lags,
                         out_rows @ [out_row fdate local_today up_today pred_river_level prob]))))"

fun flood_loop ::
  "externals \<Rightarrow> (predictor \<times> string list) option \<Rightarrow> series \<Rightarrow> real
     \<Rightarrow> real list \<times> real list \<times> forecast_row list \<Rightarrow> (date \<times> real \<times> real \<times> real) list
     \<Rightarrow> error + real list \<times> real list \<times> forecast_row list" where
  "flood_loop ex use_model df_river last_river st [] = Inr st"
| "flood_loop ex use_model df_river last_river st (row # rows) =
     (case flood_step ex use_model df_river last_river st row of
        Inl e \<Rightarrow> Inl e
      | Inr st' \<Rightarrow> flood_loop ex use_model df_river last_river st' rows)"

definition flood_main :: "externals \<Rightarrow> files \<Rightarrow> error + files" where
  "flood_main ex fs =
     (case load_local_forecast fs of
        Inl e \<Rightarrow> Inl e
      | Inr df_local \<Rightarrow>
     (case flood_load_upstream_forecast fs of
        Inl e \<Rightarrow> Inl e
      | Inr df_up \<Rightarrow>
     (case load_river_preds fs of
        Inl e \<Rightarrow> Inl e
      | Inr df_river \<Rightarrow>
        (let df = merge_forecasts df_river df_local df_up;
             hist = hist_sorted fs;
             up_lags = seed_lags hist_upstream hist;
             local_lags = seed_lags hist_local hist;
             last_river = last_river_of hist
         in case load_model_and_feats (flood_model fs) (flood_feature_order fs) of
              Inl e \<Rightarrow> Inl e
            | Inr use_model \<Rightarrow>
                (case flood_loop ex use_model df_river last_river (up_lags, local_lags, []) df of
                   Inl e \<Rightarrow> Inl e
                 | Inr (up_lags', local_lags', out_rows) \<Rightarrow>
                     Inr (fs\<lparr>flood_forecast := Some out_rows\<rparr>))))))"

text \<open>
  Two names for the statements below: the upstream series that
  \<open>flood_load_upstream_forecast\<close> returns when the local forecast \<open>local\<close> is present,
  and the row that the loop appends in heuristic mode.
\<close>

definition flood_up :: "files \<Rightarrow> series \<Rightarrow> series" where
  "flood_up fs local =
     (case upstream_forecast_gfs fs of
        Some up \<Rightarrow> sort_by_date up
      | None \<Rightarrow> map (\<lambda>(d, local_rain). (d, 0.0)) (sort_by_date local))"

definition heuristic_row :: "date \<times> real \<times> real \<times> real \<Rightarrow> forecast_row" where
  "heuristic_row row =
     (case row of (fdate, pred_river_level, local_today, up_today) \<Rightarrow>
        out_row fdate local_today up_today pred_river_level
          (heuristic_probability local_today up_today pred_river_level 349.5))"

text \<open>The cells of an output row that come from the merged table.\<close>

definition cells :: "forecast_row \<Rightarrow> date \<times> real \<times> real \<times> real" where
  "cells r = (row_date r, row_pred_river_level r, row_local_rain r, row_upstream_rain r)"

section \<open>The two prediction steps of combine.py\<close>

text \<open>
  combine.py runs predict\_river\_level.py and then predict\_flood.py in the same directory
  and stops at the first step that fails.
\<close>

definition predict_steps :: "externals \<Rightarrow> files \<Rightarrow> error + files" where
  "predict_steps ex fs =
     (case river_main ex fs of
        Inl e \<Rightarrow> Inl e
      | Inr fs' \<Rightarrow> flood_main ex fs')"

section \<open>The heuristic of stage 1 in the words of the specification\<close>

text \<open>
  The specification takes the baseline constant as base only on the very first step of a
  run without river-level history, and the last predicted level everywhere else.
\<close>

definition claimed_base :: "bool \<Rightarrow> bool \<Rightarrow> real \<Rightarrow> real" where
  "claimed_base first_step history_exists lastPredictedLevel =
     (if first_step \<and> \<not> history_exists then 349.5 else lastPredictedLevel)"

definition claimed_river_level :: "bool \<Rightarrow> bool \<Rightarrow> real \<Rightarrow> real \<Rightarrow> real \<Rightarrow> real" where
  "claimed_river_level first_step history_exists lastPredictedLevel roll_3 today_rain =
     0.6 * (claimed_base first_step history_exists lastPredictedLevel + 0.12 * roll_3 + 0.02 * today_rain)
       + 0.4 * lastPredictedLevel"

section \<open>Concrete inputs\<close>

definition ex0 :: externals where
  "ex0 = \<lparr>np_lstsq = (\<lambda>overlap. (1, 0)), month_of = (\<lambda>d. 1), dayofyear_of = (\<lambda>d. 1),
           utc_today = 0\<rparr>"

definition no_files :: files where
  "no_files = \<lparr>cleaned_data = None, upstream_forecast_gfs = None, forecast_rainfall = None,
                river_model = Missing, river_feature_order = Missing,
                flood_model = Missing, flood_feature_order = Missing,
                predicted_river_level = None, flood_forecast = None\<rparr>"

section \<open>The risk classifier\<close>

text \<open>
  C1. The classifier returns "No" exactly when \<open>p < 0.10\<close>, "Low" exactly when
  \<open>0.10 \<le> p < 0.30\<close>, "Moderate" exactly when \<open>0.30 \<le> p < 0.60\<close> and "High" exactly
  when \<open>p \<ge> 0.60\<close>; the boundaries 0.10, 0.30 and 0.60 go to the upper class, and the
  result is always one of the four classes.
\<close>

theorem classify_prob_thresholds:
  "(classify_prob p = ''No'' \<longleftrightarrow> p < 0.10) \<and>
   (classify_prob p = ''Low'' \<longleftrightarrow> 0.10 \<le> p \<and> p < 0.30) \<and>
   (classify_prob p = ''Moderate'' \<longleftrightarrow> 0.30 \<le> p \<and> p < 0.60) \<and>
   (classify_prob p = ''High'' \<longleftrightarrow> 0.60 \<le> p) \<and>
   classify_prob 0.10 = ''Low'' \<and> classify_prob 0.30 = ''Moderate'' \<and> classify_prob 0.60 = ''High'' \<and>
   classify_prob p \<in> {''No'', ''Low'', ''Moderate'', ''High''}"
  by (auto simp: classify_prob_def)

theorem classify_prob_thresholds_witness:
  "classify_prob 0.25 = ''Low'' \<and> classify_prob 0.05 = ''No'' \<and> classify_prob 0.45 = ''Moderate''
   \<and> classify_prob 1 = ''High''"
  using classify_prob_thresholds [of "0.25"] classify_prob_thresholds [of "0.05"]
    classify_prob_thresholds [of "0.45"] classify_prob_thresholds [of 1]
  by simp

text \<open>
  C10. The classifier is total on every real input: it returns one of the four classes,
  "No" for every negative \<open>p\<close> and "High" for every \<open>p > 1\<close>.
\<close>

theorem classify_prob_total:
  "classify_prob p \<in> {''No'', ''Low'', ''Moderate'', ''High''} \<and>
   (p < 0 \<longrightarrow> classify_prob p = ''No'') \<and>
   (1 < p \<longrightarrow> classify_prob p = ''High'')"
  by (auto simp: classify_prob_def)

theorem classify_prob_total_witness:
  "classify_prob (- 1) = ''No'' \<and> classify_prob 2 = ''High''"
  using classify_prob_total [of "- 1"] classify_prob_total [of 2]
  by simp

section \<open>The lag buffer\<close>

lemma length_push_lag: "lags \<noteq> [] \<Longrightarrow> length (push_lag v lags) = length lags"
  by (simp add: push_lag_def)

lemma length_push_all: "lags \<noteq> [] \<Longrightarrow> length (push_all vs lags) = length lags"
proof (induction vs arbitrary: lags)
  case Nil
  then show ?case by simp
next
  case (Cons v vs)
  have "push_lag v lags \<noteq> []" by (simp add: push_lag_def)
  with Cons show ?case by (simp add: length_push_lag)
qed

lemma push_all_snoc: "push_all (vs @ [v]) lags = push_lag v (push_all vs lags)"
  by (induction vs arbitrary: lags) auto

lemma push_all_take:
  "length vs \<le> length lags \<Longrightarrow>
   push_all vs lags = rev vs @ take (length lags - length vs) lags"
proof (induction vs arbitrary: lags)
  case Nil
  then show ?case by simp
next
  case (Cons v vs)
  then have ne: "lags \<noteq> []" by auto
  have len: "length (push_lag v lags) = length lags" using ne by (rule length_push_lag)
  have "push_all (v # vs) lags = push_all vs (push_lag v lags)" by simp
  also have "\<dots> = rev vs @ take (length lags - length vs) (push_lag v lags)"
    using Cons.IH [of "push_lag v lags"] Cons.prems len by simp
  also have "take (length lags - length vs) (push_lag v lags)
      = v # take (length lags - length vs - 1) lags"
    using Cons.prems ne
    by (cases "length lags - length vs") (auto simp: push_lag_def take_Cons' take_butlast)
  finally show ?case by simp
qed

section \<open>The loop of stage 1\<close>

lemma river_step_eq:
  "river_step ex um (lags, rp, ps) (d, u) =
     (push_lag u lags,
      (case um of
         Some (model, feat_order) \<Rightarrow> model (align (river_feat ex d (push_lag u lags) rp) feat_order)
       | None \<Rightarrow> heuristic_river rp (roll 3 (push_lag u lags)) u),
      ps @ [(d,
        (case um of
           Some (model, feat_order) \<Rightarrow> model (align (river_feat ex d (push_lag u lags) rp) feat_order)
         | None \<Rightarrow> heuristic_river rp (roll 3 (push_lag u lags)) u))])"
  by (simp add: river_step_def Let_def)

lemma river_loop_snoc:
  "river_loop ex um lu lr (rows @ [r]) = river_step ex um (river_loop ex um lu lr rows) r"
  by (simp add: river_loop_def)

lemma river_loop_shape:
  "\<exists>rp ps. river_loop ex um lu lr rows = (push_all (map snd rows) (replicate 7 lu), rp, ps)
     \<and> map fst ps = map fst rows \<and> rp = last (lr # map snd ps)"
proof (induction rows rule: rev_induct)
  case Nil
  show ?case by (simp add: river_loop_def)
next
  case (snoc r rows)
  then obtain rp ps where
    st: "river_loop ex um lu lr rows = (push_all (map snd rows) (replicate 7 lu), rp, ps)"
    and dates: "map fst ps = map fst rows" by blast
  obtain d u where r: "r = (d, u)" by (cases r)
  show ?case
    unfolding river_loop_snoc st r river_step_eq
    using dates by (simp add: push_all_snoc)
qed


lemma foldl_river_step_preds:
  "\<exists>lags' rp' qs. foldl (river_step ex um) (lags, rp, ps) rest = (lags', rp', ps @ qs)
      \<and> length qs = length rest"
proof (induction rest arbitrary: lags rp ps)
  case Nil
  show ?case by simp
next
  case (Cons r rest)
  obtain d u where r: "r = (d, u)" by (cases r)
  obtain P where step: "river_step ex um (lags, rp, ps) (d, u) = (push_lag u lags, P, ps @ [(d, P)])"
    using river_step_eq [of ex um lags rp ps d u] by simp
  from Cons.IH [of "push_lag u lags" P "ps @ [(d, P)]"]
  obtain lags' rp' qs where
    "foldl (river_step ex um) (push_lag u lags, P, ps @ [(d, P)]) rest = (lags', rp', (ps @ [(d, P)]) @ qs)"
    and "length qs = length rest" by blast
  then show ?case
    unfolding r by (simp add: step) 
qed

lemma river_loop_nth:
  assumes loop: "river_loop ex um lu lr rows = (lags, rp, preds)" and i: "i < length rows"
  shows "length preds = length rows"
    and "preds ! i =
      (fst (rows ! i),
       (case um of
          Some (model, feat_order) \<Rightarrow>
            model (align (river_feat ex (fst (rows ! i))
                     (push_all (map snd (take (Suc i) rows)) (replicate 7 lu))
                     (last (lr # map snd (take i preds)))) feat_order)
        | None \<Rightarrow>
            heuristic_river (last (lr # map snd (take i preds)))
              (roll 3 (push_all (map snd (take (Suc i) rows)) (replicate 7 lu)))
              (snd (rows ! i))))"
proof -
  from river_loop_shape [of ex um lu lr rows] loop
  have "map fst preds = map fst rows" by simp
  then show len: "length preds = length rows" by (metis length_map)
  obtain d u where r: "rows ! i = (d, u)" by (cases "rows ! i")
  from river_loop_shape [of ex um lu lr "take i rows"]
  obtain rp_i ps_i where
    pre: "river_loop ex um lu lr (take i rows)
            = (push_all (map snd (take i rows)) (replicate 7 lu), rp_i, ps_i)"
    and dates_i: "map fst ps_i = map fst (take i rows)"
    and rp_i: "rp_i = last (lr # map snd ps_i)" by blast
  from dates_i i have len_i: "length ps_i = i"
    by (metis length_map length_take min.absorb2 less_imp_le_nat)
  define P where "P = (case um of
         Some (model, feat_order) \<Rightarrow>
           model (align (river_feat ex d (push_lag u (push_all (map snd (take i rows)) (replicate 7 lu))) rp_i) feat_order)
       | None \<Rightarrow> heuristic_river rp_i (roll 3 (push_lag u (push_all (map snd (take i rows)) (replicate 7 lu)))) u)"
  have split: "rows = take i rows @ (d, u) # drop (Suc i) rows"
    using i r by (metis id_take_nth_drop)
  have "river_loop ex um lu lr rows
      = foldl (river_step ex um)
          (river_step ex um (river_loop ex um lu lr (take i rows)) (d, u)) (drop (Suc i) rows)"
    unfolding river_loop_def by (subst split) (simp only: foldl_append foldl_Cons)
  also have "river_step ex um (river_loop ex um lu lr (take i rows)) (d, u)
      = (push_lag u (push_all (map snd (take i rows)) (replicate 7 lu)), P, ps_i @ [(d, P)])"
    unfolding pre river_step_eq P_def by simp
  finally have whole: "river_loop ex um lu lr rows
      = foldl (river_step ex um)
          (push_lag u (push_all (map snd (take i rows)) (replicate 7 lu)), P, ps_i @ [(d, P)])
          (drop (Suc i) rows)" .
  obtain lags' rp' qs where
    "foldl (river_step ex um)
       (push_lag u (push_all (map snd (take i rows)) (replicate 7 lu)), P, ps_i @ [(d, P)])
       (drop (Suc i) rows) = (lags', rp', (ps_i @ [(d, P)]) @ qs)"
    using foldl_river_step_preds by blast
  with whole loop have preds: "preds = (ps_i @ [(d, P)]) @ qs" by simp
  have nth: "preds ! i = (d, P)" using len_i by (simp add: preds nth_append)
  have tk: "take i preds = ps_i" using len_i by (simp add: preds)
  have buf: "push_all (map snd (take (Suc i) rows)) (replicate 7 lu)
      = push_lag u (push_all (map snd (take i rows)) (replicate 7 lu))"
    using i r by (simp add: take_Suc_conv_app_nth push_all_snoc)
  show "preds ! i =
      (fst (rows ! i),
       (case um of
          Some (model, feat_order) \<Rightarrow>
            model (align (river_feat ex (fst (rows ! i))
                     (push_all (map snd (take (Suc i) rows)) (replicate 7 lu))
                     (last (lr # map snd (take i preds)))) feat_order)
        | None \<Rightarrow>
            heuristic_river (last (lr # map snd (take i preds)))
              (roll 3 (push_all (map snd (take (Suc i) rows)) (replicate 7 lu)))
              (snd (rows ! i))))"
    unfolding nth tk buf r P_def rp_i by (simp split: option.split)
qed

lemma load_heuristic:
  "\<not> (exists model_file \<and> exists feature_file) \<Longrightarrow> load_model_and_feats model_file feature_file = Inr None"
  by (cases model_file; cases feature_file) (simp_all add: load_model_and_feats_def)

lemma replicate_7: "replicate 7 x = [x, x, x, x, x, x, x]"
  by (simp add: eval_nat_numeral)

lemma last_prev:
  "i < length preds \<Longrightarrow>
   last (lr # map snd (take i preds)) = (if i = 0 then lr else snd (preds ! (i - 1)))"
  by (cases i) (simp_all add: take_Suc_conv_app_nth)

section \<open>The heuristic of stage 1\<close>

text \<open>
  The specification's wording of the heuristic fails on the code: with a history whose
  last river level is \<open>0.0\<close> the first prediction is \<open>0.6 * 349.5 = 209.7\<close>, because
  the code takes the baseline whenever the previous level is zero, while the
  specification's formula (history exists, so base is the last level) gives \<open>0\<close>.
\<close>

theorem river_heuristic_counterexample:
  "river_main ex0
     (no_files\<lparr>cleaned_data := Some [\<lparr>h_date = 0, h_upstream_rain = Some 0, h_gurd_rain = Some 0,
                                        h_local_rain = None, h_river_level = Some 0\<rparr>],
                upstream_forecast_gfs := Some [(1, 0)]\<rparr>)
   = Inr (no_files\<lparr>cleaned_data := Some [\<lparr>h_date = 0, h_upstream_rain = Some 0, h_gurd_rain = Some 0,
                                        h_local_rain = None, h_river_level = Some 0\<rparr>],
                upstream_forecast_gfs := Some [(1, 0)],
                predicted_river_level := Some [(1, 209.7)]\<rparr>)
   \<and> claimed_river_level True True 0 (roll 3 (push_lag 0 (replicate 7 0))) 0 \<noteq> 209.7"
  by (simp add: river_main_def river_up_fc_def river_load_upstream_forecast_def sort_by_date_def
      hist_sorted_def river_last_up_def last_river_of_def load_model_and_feats_def no_files_def
      river_loop_def river_step_def heuristic_river_def roll_def push_lag_def HORIZON_def
      replicate_7 claimed_river_level_def claimed_base_def Let_def)

text \<open>
  C3, as the code computes it. In heuristic mode stage 1 returns one prediction per row of the horizon,
  and the prediction of step \<open>i\<close> is
  \<open>0.6 * (base + 0.12 * roll_3 + 0.02 * today_rain) + 0.4 * prev\<close>, where \<open>prev\<close> is the
  prediction of step \<open>i - 1\<close> (the last historical level on the first step, \<open>0\<close> when
  there is no history), \<open>roll_3\<close> is the sum of the three newest entries of the lag
  buffer after pushing the rain of the days up to \<open>i\<close>, and base is \<open>prev\<close> unless
  \<open>prev\<close> is exactly zero, in which case it is the baseline 349.5.
\<close>

theorem river_heuristic_recurrence:
  assumes heur: "\<not> (exists (river_model fs) \<and> exists (river_feature_order fs))"
    and i: "i < length (river_up_fc ex fs)"
  shows "\<exists>preds. river_main ex fs = Inr (fs\<lparr>predicted_river_level := Some preds\<rparr>) \<and>
           length preds = length (river_up_fc ex fs) \<and>
           (let prev = (if i = 0 then last_river_of (hist_sorted fs) else snd (preds ! (i - 1)));
                base = (if prev = 0 then 349.5 else prev);
                today_rain = snd (river_up_fc ex fs ! i);
                roll_3 = roll 3 (push_all (map snd (take (Suc i) (river_up_fc ex fs)))
                                          (replicate 7 (river_last_up (hist_sorted fs))))
            in preds ! i = (fst (river_up_fc ex fs ! i),
                            0.6 * (base + 0.12 * roll_3 + 0.02 * today_rain) + 0.4 * prev)) \<and>
           (cleaned_data fs = None \<longrightarrow> last_river_of (hist_sorted fs) = 0)"
proof -
  obtain lags rp preds where loop:
    "river_loop ex None (river_last_up (hist_sorted fs)) (last_river_of (hist_sorted fs)) (river_up_fc ex fs)
       = (lags, rp, preds)"
    by (metis prod_cases3)
  have main: "river_main ex fs = Inr (fs\<lparr>predicted_river_level := Some preds\<rparr>)"
    by (simp add: river_main_def Let_def load_heuristic [OF heur] loop)
  have len: "length preds = length (river_up_fc ex fs)"
    using river_loop_nth(1) [OF loop i] .
  have nth: "preds ! i = (fst (river_up_fc ex fs ! i),
      heuristic_river (last (last_river_of (hist_sorted fs) # map snd (take i preds)))
        (roll 3 (push_all (map snd (take (Suc i) (river_up_fc ex fs)))
                          (replicate 7 (river_last_up (hist_sorted fs)))))
        (snd (river_up_fc ex fs ! i)))"
    using river_loop_nth(2) [OF loop i] by simp
  have prev: "last (last_river_of (hist_sorted fs) # map snd (take i preds))
      = (if i = 0 then last_river_of (hist_sorted fs) else snd (preds ! (i - 1)))"
    by (rule last_prev) (simp add: len i)
  have nohist: "cleaned_data fs = None \<longrightarrow> last_river_of (hist_sorted fs) = 0"
    by (simp add: hist_sorted_def last_river_of_def)
  have body: "(let prev = (if i = 0 then last_river_of (hist_sorted fs) else snd (preds ! (i - 1)));
                base = (if prev = 0 then 349.5 else prev);
                today_rain = snd (river_up_fc ex fs ! i);
                roll_3 = roll 3 (push_all (map snd (take (Suc i) (river_up_fc ex fs)))
                                          (replicate 7 (river_last_up (hist_sorted fs))))
            in preds ! i = (fst (river_up_fc ex fs ! i),
                            0.6 * (base + 0.12 * roll_3 + 0.02 * today_rain) + 0.4 * prev))"
    unfolding nth prev by (simp add: heuristic_river_def Let_def)
  show ?thesis
    by (rule exI [of _ preds]) (intro conjI main len body nohist)
qed


lemma river_up_fc_given:
  "upstream_forecast_gfs fs = Some up \<Longrightarrow> river_up_fc ex fs = take HORIZON (sort_by_date up)"
  by (simp add: river_up_fc_def river_load_upstream_forecast_def sort_by_date_def
      sort_key_id_if_sorted)

theorem river_heuristic_recurrence_witness:
  "\<not> (exists (river_model (no_files\<lparr>upstream_forecast_gfs := Some [(1, 10), (2, 0)]\<rparr>)) \<and>
      exists (river_feature_order (no_files\<lparr>upstream_forecast_gfs := Some [(1, 10), (2, 0)]\<rparr>))) \<and>
   1 < length (river_up_fc ex0 (no_files\<lparr>upstream_forecast_gfs := Some [(1, 10), (2, 0)]\<rparr>)) \<and>
   (\<exists>preds. river_main ex0 (no_files\<lparr>upstream_forecast_gfs := Some [(1, 10), (2, 0)]\<rparr>)
              = Inr (no_files\<lparr>upstream_forecast_gfs := Some [(1, 10), (2, 0)],
                              predicted_river_level := Some preds\<rparr>) \<and>
            length preds = 2 \<and>
            preds ! 1 = (2, 0.6 * ((if snd (preds ! 0) = 0 then 349.5 else snd (preds ! 0))
                                   + 0.12 * 10 + 0.02 * 0) + 0.4 * snd (preds ! 0)))"
proof -
  let ?F = "no_files\<lparr>upstream_forecast_gfs := Some [(1, 10), (2, 0)]\<rparr>"
  have h1: "\<not> (exists (river_model ?F) \<and> exists (river_feature_order ?F))"
    by (simp add: no_files_def)
  have fc: "river_up_fc ex0 ?F = [(1, 10), (2, 0)]"
    by (simp add: river_up_fc_given sort_by_date_def HORIZON_def)
  have h2: "1 < length (river_up_fc ex0 ?F)"
    by (simp add: fc)
  have hist: "hist_sorted ?F = []"
    by (simp add: hist_sorted_def no_files_def)
  from river_heuristic_recurrence [OF h1 h2] obtain preds where
    m: "river_main ex0 ?F = Inr (?F\<lparr>predicted_river_level := Some preds\<rparr>)"
    and l: "length preds = length (river_up_fc ex0 ?F)"
    and b: "(let prev = (if (1::nat) = 0 then last_river_of (hist_sorted ?F) else snd (preds ! (1 - 1)));
                base = (if prev = 0 then 349.5 else prev);
                today_rain = snd (river_up_fc ex0 ?F ! 1);
                roll_3 = roll 3 (push_all (map snd (take (Suc 1) (river_up_fc ex0 ?F)))
                                          (replicate 7 (river_last_up (hist_sorted ?F))))
            in preds ! 1 = (fst (river_up_fc ex0 ?F ! 1),
                            0.6 * (base + 0.12 * roll_3 + 0.02 * today_rain) + 0.4 * prev))"
    by (elim exE conjE)
  have l': "length preds = 2"
    using l by (simp add: fc)
  have b': "preds ! 1 = (2, 0.6 * ((if snd (preds ! 0) = 0 then 349.5 else snd (preds ! 0))
                                   + 0.12 * 10 + 0.02 * 0) + 0.4 * snd (preds ! 0))"
    using b by (simp add: fc hist river_last_up_def replicate_7 push_lag_def roll_def Let_def)
  show ?thesis
    by (intro conjI h1 h2 exI [of _ preds] m l' b')
qed

section \<open>A dry horizon\<close>






section \<open>The river lag of stage 2\<close>

lemma sorted_last_Max:
  fixes xs :: "'a::linorder list"
  shows "sorted xs \<Longrightarrow> xs \<noteq> [] \<Longrightarrow> last xs = Max (set xs)"
proof (induction xs)
  case Nil
  then show ?case by simp
next
  case (Cons x xs)
  show ?case
  proof (cases "xs = []")
    case True
    then show ?thesis by simp
  next
    case False
    with Cons have l: "last xs = Max (set xs)" by simp
    have "last xs \<in> set xs" using False by simp
    with Cons.prems have "x \<le> last xs" by auto
    with l have "max x (Max (set xs)) = Max (set xs)" by (simp add: max_def)
    with False l show ?thesis by simp
  qed
qed

lemma river_lag_1_cases:
  "river_lag_1 df_river last_river fdate =
     (if {d \<in> fst ` set df_river. d < fdate} = {} then Inr last_river
      else (case pred_river_map df_river (Max {d \<in> fst ` set df_river. d < fdate}) of
              Some v \<Rightarrow> Inr v | None \<Rightarrow> Inl KeyError))"
proof -
  let ?S = "{d \<in> fst ` set df_river. d < fdate}"
  let ?prev = "sort (filter (\<lambda>d. d < fdate) (remdups (map fst df_river)))"
  have set_prev: "set ?prev = ?S" by auto
  have empty: "?prev = [] \<longleftrightarrow> ?S = {}"
    using set_prev by (metis set_empty)
  have "last ?prev = Max ?S" if "?prev \<noteq> []"
    using sorted_last_Max [of ?prev] that set_prev by simp
  then show ?thesis
    using empty by (simp add: river_lag_1_def Let_def)
qed

lemma pred_river_map_Some:
  assumes "d \<in> fst ` set df_river"
  shows "\<exists>v. pred_river_map df_river d = Some v \<and> (d, v) \<in> set df_river"
proof -
  from assms have "d \<in> fst ` set (rev df_river)" by simp
  then have "map_of (rev df_river) d \<noteq> None"
    by (simp add: map_of_eq_None_iff)
  then obtain v where v: "map_of (rev df_river) d = Some v" by blast
  then have "(d, v) \<in> set (rev df_river)" by (rule map_of_SomeD)
  with v show ?thesis by (simp add: pred_river_map_def)
qed

lemma river_lag_1_total: "\<exists>v. river_lag_1 df_river last_river fdate = Inr v"
proof (cases "{d \<in> fst ` set df_river. d < fdate} = {}")
  case True
  then show ?thesis by (simp add: river_lag_1_cases)
next
  case False
  have "finite {d \<in> fst ` set df_river. d < fdate}" by simp
  from Max_in [OF this False]
  have "Max {d \<in> fst ` set df_river. d < fdate} \<in> fst ` set df_river" by blast
  from pred_river_map_Some [OF this] show ?thesis
    using False by (auto simp: river_lag_1_cases)
qed






section \<open>The loop of stage 2 and the heuristic probability\<close>

lemma flood_step_eq:
  assumes "river_lag_1 df_river last_river d = Inr v"
  shows "flood_step ex um df_river last_river (ul, ll, out) (d, pred, loc, up) =
     Inr (push_lag up ul, push_lag loc ll,
          out @ [out_row d loc up pred
                   (case um of
                      Some (clf, feat_order) \<Rightarrow>
                        clf (align (flood_feat ex d (push_lag up ul) (push_lag loc ll) v) feat_order)
                    | None \<Rightarrow> heuristic_probability loc up pred 349.5)])"
  using assms by (simp add: flood_step_def Let_def split: option.split)

lemma flood_loop_heuristic:
  "flood_loop ex None df_river last_river (ul, ll, out) rows =
     Inr (push_all (map (\<lambda>(d, pred, loc, up). up) rows) ul,
          push_all (map (\<lambda>(d, pred, loc, up). loc) rows) ll,
          out @ map heuristic_row rows)"
proof (induction rows arbitrary: ul ll out)
  case Nil
  show ?case by simp
next
  case (Cons row rows)
  obtain d pred loc up where row: "row = (d, pred, loc, up)" by (cases row)
  obtain v where v: "river_lag_1 df_river last_river d = Inr v"
    using river_lag_1_total by blast
  show ?case
    unfolding row by (simp add: flood_step_eq [OF v] Cons.IH heuristic_row_def)
qed

lemma merge_cell:
  "(d, a, c) \<in> set (case filter (\<lambda>r. fst r = d') right of
                       [] \<Rightarrow> [(d', a', None)]
                     | ms \<Rightarrow> map (\<lambda>r. (d', a', Some (snd r))) ms)
   \<longleftrightarrow> d = d' \<and> a = a' \<and>
       (case c of None \<Rightarrow> d \<notin> fst ` set right | Some v \<Rightarrow> (d, v) \<in> set right)"
proof (cases "filter (\<lambda>r. fst r = d') right")
  case Nil
  then have "\<forall>r \<in> set right. fst r \<noteq> d'"
    by (simp add: filter_empty_conv)
  then have no: "d' \<notin> fst ` set right" and no': "\<And>v. (d', v) \<notin> set right"
    by force+
  show ?thesis
  proof (cases c)
    case None
    then show ?thesis using no by (auto simp: Nil)
  next
    case (Some v)
    then show ?thesis using no' by (auto simp: Nil)
  qed
next
  case (Cons m ms)
  have ms: "set (m # ms) = {r \<in> set right. fst r = d'}"
    unfolding Cons [symmetric] by simp
  have "m \<in> {r \<in> set right. fst r = d'}"
    unfolding ms [symmetric] by simp
  then have yes: "d' \<in> fst ` set right" by force
  have mem: "(d, a, c) \<in> set (map (\<lambda>r. (d', a', Some (snd r))) (m # ms))
      \<longleftrightarrow> d = d' \<and> a = a' \<and> (\<exists>v. c = Some v \<and> (d', v) \<in> set right)"
    unfolding set_map ms by force
  show ?thesis
  proof (cases c)
    case None
    then show ?thesis using yes mem by (simp add: Cons)
  next
    case (Some v)
    then show ?thesis using mem by (auto simp: Cons)
  qed
qed

lemma merge_left_set:
  "(d, a, c) \<in> set (merge_left left right) \<longleftrightarrow>
     (d, a) \<in> set left \<and>
     (case c of None \<Rightarrow> d \<notin> fst ` set right | Some v \<Rightarrow> (d, v) \<in> set right)"
proof -
  have "(d, a, c) \<in> set (merge_left left right) \<longleftrightarrow>
      (\<exists>l \<in> set left. (d, a, c) \<in> set (case filter (\<lambda>r. fst r = fst l) right of
                       [] \<Rightarrow> [(fst l, snd l, None)]
                     | ms \<Rightarrow> map (\<lambda>r. (fst l, snd l, Some (snd r))) ms))"
    unfolding merge_left_def by (simp add: case_prod_beta)
  also have "\<dots> \<longleftrightarrow> (\<exists>l \<in> set left. d = fst l \<and> a = snd l \<and>
       (case c of None \<Rightarrow> d \<notin> fst ` set right | Some v \<Rightarrow> (d, v) \<in> set right))"
    unfolding merge_cell ..
  also have "\<dots> \<longleftrightarrow> (d, a) \<in> set left \<and>
       (case c of None \<Rightarrow> d \<notin> fst ` set right | Some v \<Rightarrow> (d, v) \<in> set right)"
    by force
  finally show ?thesis .
qed


lemma merge_forecasts_set:
  "(d, pred, loc, up) \<in> set (merge_forecasts df_river df_local df_up) \<longleftrightarrow>
     (d, pred) \<in> set df_river \<and>
     ((d, loc) \<in> set df_local \<or> d \<notin> fst ` set df_local \<and> loc = 0) \<and>
     ((d, up) \<in> set df_up \<or> d \<notin> fst ` set df_up \<and> up = 0)"
proof -
  have "(d, pred, loc, up) \<in> set (merge_forecasts df_river df_local df_up) \<longleftrightarrow>
      (\<exists>lc uc. (d, (pred, lc), uc) \<in> set (merge_left (merge_left df_river df_local) df_up)
         \<and> loc = fillna lc \<and> up = fillna uc)"
    unfolding merge_forecasts_def by force
  also have "\<dots> \<longleftrightarrow> (\<exists>lc uc. (d, pred) \<in> set df_river \<and>
       (case lc of None \<Rightarrow> d \<notin> fst ` set df_local | Some v \<Rightarrow> (d, v) \<in> set df_local) \<and>
       (case uc of None \<Rightarrow> d \<notin> fst ` set df_up | Some v \<Rightarrow> (d, v) \<in> set df_up) \<and>
       loc = fillna lc \<and> up = fillna uc)"
    unfolding merge_left_set by blast
  also have "\<dots> \<longleftrightarrow> (d, pred) \<in> set df_river \<and>
       (\<exists>lc. (case lc of None \<Rightarrow> d \<notin> fst ` set df_local | Some v \<Rightarrow> (d, v) \<in> set df_local)
             \<and> loc = fillna lc) \<and>
       (\<exists>uc. (case uc of None \<Rightarrow> d \<notin> fst ` set df_up | Some v \<Rightarrow> (d, v) \<in> set df_up)
             \<and> up = fillna uc)"
    by blast
  also have "(\<exists>lc. (case lc of None \<Rightarrow> d \<notin> fst ` set df_local | Some v \<Rightarrow> (d, v) \<in> set df_local)
             \<and> loc = fillna lc) \<longleftrightarrow> ((d, loc) \<in> set df_local \<or> d \<notin> fst ` set df_local \<and> loc = 0)"
    by (auto simp: fillna_def split: option.splits)
  also have "(\<exists>uc. (case uc of None \<Rightarrow> d \<notin> fst ` set df_up | Some v \<Rightarrow> (d, v) \<in> set df_up)
             \<and> up = fillna uc) \<longleftrightarrow> ((d, up) \<in> set df_up \<or> d \<notin> fst ` set df_up \<and> up = 0)"
    by (auto simp: fillna_def split: option.splits)
  finally show ?thesis .
qed

lemma merge_forecasts_dates:
  "fst ` set (merge_forecasts df_river df_local df_up) = fst ` set df_river"
proof (intro set_eqI iffI)
  fix d assume "d \<in> fst ` set (merge_forecasts df_river df_local df_up)"
  then obtain pred loc up where "(d, pred, loc, up) \<in> set (merge_forecasts df_river df_local df_up)"
    by force
  then have "(d, pred) \<in> set df_river" by (simp add: merge_forecasts_set)
  then show "d \<in> fst ` set df_river" by force
next
  fix d assume "d \<in> fst ` set df_river"
  then obtain pred where p: "(d, pred) \<in> set df_river" by force
  have l: "\<exists>loc::real. (d, loc) \<in> set df_local \<or> d \<notin> fst ` set df_local \<and> loc = 0"
  proof (cases "d \<in> fst ` set df_local")
    case True
    then obtain v where "(d, v) \<in> set df_local" by force
    then show ?thesis by blast
  next
    case False
    then show ?thesis by blast
  qed
  have u: "\<exists>up::real. (d, up) \<in> set df_up \<or> d \<notin> fst ` set df_up \<and> up = 0"
  proof (cases "d \<in> fst ` set df_up")
    case True
    then obtain v where "(d, v) \<in> set df_up" by force
    then show ?thesis by blast
  next
    case False
    then show ?thesis by blast
  qed
  from p l u obtain loc up where "(d, pred, loc, up) \<in> set (merge_forecasts df_river df_local df_up)"
    unfolding merge_forecasts_set by blast
  then show "d \<in> fst ` set (merge_forecasts df_river df_local df_up)" by force
qed

lemma flood_main_heuristic:
  assumes heur: "\<not> (exists (flood_model fs) \<and> exists (flood_feature_order fs))"
    and local: "forecast_rainfall fs = Some local"
    and river: "predicted_river_level fs = Some river"
  shows "flood_main ex fs = Inr (fs\<lparr>flood_forecast := Some (map heuristic_row
           (merge_forecasts (sort_by_date river) (sort_by_date local) (flood_up fs local)))\<rparr>)"
proof -
  have l: "load_local_forecast fs = Inr (sort_by_date local)"
    by (simp add: load_local_forecast_def local)
  have u: "flood_load_upstream_forecast fs = Inr (flood_up fs local)"
    by (simp add: flood_load_upstream_forecast_def l flood_up_def split: option.split)
  have r: "load_river_preds fs = Inr (sort_by_date river)"
    by (simp add: load_river_preds_def river)
  show ?thesis
    by (simp add: flood_main_def l u r Let_def load_heuristic [OF heur] flood_loop_heuristic)
qed

lemma heuristic_probability_range:
  "0 \<le> heuristic_probability l u p b \<and> heuristic_probability l u p b \<le> 1"
  by (simp add: heuristic_probability_def Let_def)

text \<open>
  C4. In heuristic mode, with the local forecast and stage 1's output present, stage 2
  returns rows for exactly the dates of stage 1's output, and in every row the
  probability is \<open>clip(0.08 * local_rain + 0.06 * upstream_rain +
  0.003 * max(0, pred_river_level - 349.5), 0, 1)\<close> of the row's own cells, hence in
  \<open>[0, 1]\<close>; the row's level is stage 1's prediction for the row's date, and its rain
  cells are the forecasts' values for that date (\<open>0\<close> where a forecast has no such date,
  and for the upstream cell when there is no upstream forecast).
\<close>

theorem flood_heuristic_probability:
  assumes heur: "\<not> (exists (flood_model fs) \<and> exists (flood_feature_order fs))"
    and local: "forecast_rainfall fs = Some local"
    and river: "predicted_river_level fs = Some river"
  shows "\<exists>out. flood_main ex fs = Inr (fs\<lparr>flood_forecast := Some out\<rparr>) \<and>
           row_date ` set out = fst ` set river \<and>
           (\<forall>r \<in> set out.
              row_flood_probability r =
                min (max (0.08 * row_local_rain r + 0.06 * row_upstream_rain r
                          + 0.003 * max 0 (row_pred_river_level r - 349.5)) 0) 1 \<and>
              0 \<le> row_flood_probability r \<and> row_flood_probability r \<le> 1 \<and>
              (row_date r, row_pred_river_level r) \<in> set river \<and>
              ((row_date r, row_local_rain r) \<in> set local \<or>
               row_date r \<notin> fst ` set local \<and> row_local_rain r = 0) \<and>
              (case upstream_forecast_gfs fs of
                 Some up \<Rightarrow> (row_date r, row_upstream_rain r) \<in> set up \<or>
                            row_date r \<notin> fst ` set up \<and> row_upstream_rain r = 0
               | None \<Rightarrow> row_upstream_rain r = 0))"
proof -
  let ?df = "merge_forecasts (sort_by_date river) (sort_by_date local) (flood_up fs local)"
  let ?out = "map heuristic_row ?df"
  have main: "flood_main ex fs = Inr (fs\<lparr>flood_forecast := Some ?out\<rparr>)"
    using heur local river by (rule flood_main_heuristic)
  have date: "row_date (heuristic_row row) = fst row" for row
    by (cases row) (simp add: heuristic_row_def out_row_def)
  have "row_date ` set ?out = fst ` set ?df"
    by (simp add: image_image date)
  then have dates: "row_date ` set ?out = fst ` set river"
    by (simp add: merge_forecasts_dates sort_by_date_def)
  have rows: "row_flood_probability r =
                min (max (0.08 * row_local_rain r + 0.06 * row_upstream_rain r
                          + 0.003 * max 0 (row_pred_river_level r - 349.5)) 0) 1 \<and>
              0 \<le> row_flood_probability r \<and> row_flood_probability r \<le> 1 \<and>
              (row_date r, row_pred_river_level r) \<in> set river \<and>
              ((row_date r, row_local_rain r) \<in> set local \<or>
               row_date r \<notin> fst ` set local \<and> row_local_rain r = 0) \<and>
              (case upstream_forecast_gfs fs of
                 Some up \<Rightarrow> (row_date r, row_upstream_rain r) \<in> set up \<or>
                            row_date r \<notin> fst ` set up \<and> row_upstream_rain r = 0
               | None \<Rightarrow> row_upstream_rain r = 0)"
    if "r \<in> set ?out" for r
  proof -
    from that obtain d pred loc up where
      mem: "(d, pred, loc, up) \<in> set ?df" and r: "r = heuristic_row (d, pred, loc, up)"
      by auto
    from mem have p: "(d, pred) \<in> set river"
      and l: "(d, loc) \<in> set local \<or> d \<notin> fst ` set local \<and> loc = 0"
      and u: "(d, up) \<in> set (flood_up fs local) \<or> d \<notin> fst ` set (flood_up fs local) \<and> up = 0"
      unfolding merge_forecasts_set by (simp_all add: sort_by_date_def)
    have u': "(case upstream_forecast_gfs fs of
                 Some ups \<Rightarrow> (d, up) \<in> set ups \<or> d \<notin> fst ` set ups \<and> up = 0
               | None \<Rightarrow> up = 0)"
    proof (cases "upstream_forecast_gfs fs")
      case None
      with u show ?thesis by (auto simp: flood_up_def)
    next
      case (Some ups)
      with u show ?thesis by (simp add: flood_up_def sort_by_date_def)
    qed
    have fields: "row_date r = d" "row_pred_river_level r = pred" "row_local_rain r = loc"
      "row_upstream_rain r = up" "row_flood_probability r = heuristic_probability loc up pred 349.5"
      by (simp_all add: r heuristic_row_def out_row_def)
    show ?thesis
      unfolding fields using p l u' heuristic_probability_range [of loc up pred "349.5"]
      by (simp add: heuristic_probability_def Let_def)
  qed
  show ?thesis
    by (rule exI [of _ ?out]) (intro conjI main dates ballI rows)
qed


theorem flood_heuristic_probability_witness:
  "\<exists>out. flood_main ex0 (no_files\<lparr>upstream_forecast_gfs := Some [(1, 1)],
                                    forecast_rainfall := Some [(1, 1)],
                                    predicted_river_level := Some [(1, 359.5)]\<rparr>)
          = Inr (no_files\<lparr>upstream_forecast_gfs := Some [(1, 1)],
                          forecast_rainfall := Some [(1, 1)],
                          predicted_river_level := Some [(1, 359.5)],
                          flood_forecast := Some out\<rparr>) \<and>
        row_date ` set out = {1} \<and>
        list_all (\<lambda>r. row_flood_probability r = 0.17 \<and> row_pred_river_level r = 359.5) out"
proof -
  let ?F = "no_files\<lparr>upstream_forecast_gfs := Some [(1, 1)],
                      forecast_rainfall := Some [(1, 1)],
                      predicted_river_level := Some [(1, 359.5)]\<rparr>"
  have h1: "\<not> (exists (flood_model ?F) \<and> exists (flood_feature_order ?F))"
    by (simp add: no_files_def)
  have h2: "forecast_rainfall ?F = Some [(1, 1)]" by simp
  have h3: "predicted_river_level ?F = Some [(1, 359.5)]" by simp
  from flood_heuristic_probability [OF h1 h2 h3, of ex0] obtain out where
    m: "flood_main ex0 ?F = Inr (?F\<lparr>flood_forecast := Some out\<rparr>)"
    and d: "row_date ` set out = fst ` set [(1::int, 359.5::real)]"
    and r: "\<forall>r \<in> set out.
              row_flood_probability r =
                min (max (0.08 * row_local_rain r + 0.06 * row_upstream_rain r
                          + 0.003 * max 0 (row_pred_river_level r - 349.5)) 0) 1 \<and>
              0 \<le> row_flood_probability r \<and> row_flood_probability r \<le> 1 \<and>
              (row_date r, row_pred_river_level r) \<in> set [(1, 359.5)] \<and>
              ((row_date r, row_local_rain r) \<in> set [(1, 1)] \<or>
               row_date r \<notin> fst ` set [(1::int, 1::real)] \<and> row_local_rain r = 0) \<and>
              (case upstream_forecast_gfs ?F of
                 Some up \<Rightarrow> (row_date r, row_upstream_rain r) \<in> set up \<or>
                            row_date r \<notin> fst ` set up \<and> row_upstream_rain r = 0
               | None \<Rightarrow> row_upstream_rain r = 0)"
    by (elim exE conjE)
  have "row_flood_probability r = 0.17 \<and> row_pred_river_level r = 359.5" if "r \<in> set out" for r
  proof -
    note f = r [rule_format, OF that]
    from f have p: "row_pred_river_level r = 3595 / 10" and l: "row_local_rain r = 1"
      and u: "row_upstream_rain r = 1"
      by auto
    from f have "row_flood_probability r =
        min (max (0.08 * row_local_rain r + 0.06 * row_upstream_rain r
                  + 0.003 * max 0 (row_pred_river_level r - 349.5)) 0) 1"
      by blast
    then have "row_flood_probability r = 0.17"
      unfolding p l u by simp
    with p show ?thesis by simp
  qed
  then have "list_all (\<lambda>r. row_flood_probability r = 0.17 \<and> row_pred_river_level r = 359.5) out"
    by (simp add: list_all_iff)
  with m d show ?thesis by auto
qed

section \<open>The lag buffers of the two loops\<close>

lemma length_seed_lags: "length (seed_lags cell hist) = 7"
  by (simp add: seed_lags_def)

lemma flood_loop_lags:
  "\<exists>out'. flood_loop ex um df_river last_river (ul, ll, out) rows =
     Inr (push_all (map (\<lambda>(d, pred, loc, up). up) rows) ul,
          push_all (map (\<lambda>(d, pred, loc, up). loc) rows) ll, out')"
proof (induction rows arbitrary: ul ll out)
  case Nil
  show ?case by simp
next
  case (Cons row rows)
  obtain d pred loc up where row: "row = (d, pred, loc, up)" by (cases row)
  obtain v where v: "river_lag_1 df_river last_river d = Inr v"
    using river_lag_1_total by blast
  show ?case
    unfolding row by (simp add: flood_step_eq [OF v] Cons.IH)
qed

text \<open>
  C6. A lag buffer of seven entries still has seven entries after any sequence of pushes;
  a push puts the new value in front of the six newest entries and drops the oldest; after
  seven pushes of \<open>v1, ..., v7\<close> the buffer is \<open>[v7, v6, v5, v4, v3, v2, v1]\<close>. The
  buffer of stage 1 is its seven-entry seed after pushing each day's upstream rain, and so
  are the two buffers of stage 2 for the upstream and the local rain; all of them keep
  seven entries.
\<close>

theorem lag_buffer_seven:
  assumes "length lags = 7"
  shows "length (push_all vs lags) = 7 \<and>
         push_lag v lags = v # take 6 lags \<and>
         push_all [v1, v2, v3, v4, v5, v6, v7] lags = [v7, v6, v5, v4, v3, v2, v1] \<and>
         fst (river_loop ex um last_up last_river up_fc)
           = push_all (map snd up_fc) (replicate 7 last_up) \<and>
         length (fst (river_loop ex um last_up last_river up_fc)) = 7 \<and>
         (\<exists>up_lags local_lags out_rows.
            flood_loop ex um df_river last_river
              (seed_lags hist_upstream hist, seed_lags hist_local hist, []) df
              = Inr (up_lags, local_lags, out_rows) \<and>
            up_lags = push_all (map (\<lambda>(d, pred, loc, up). up) df) (seed_lags hist_upstream hist) \<and>
            local_lags = push_all (map (\<lambda>(d, pred, loc, up). loc) df) (seed_lags hist_local hist) \<and>
            length up_lags = 7 \<and> length local_lags = 7)"
proof -
  from assms have ne: "lags \<noteq> []" by auto
  have a: "length (push_all vs lags) = 7"
    using length_push_all [OF ne] assms by simp
  have b: "push_lag v lags = v # take 6 lags"
    using assms by (simp add: push_lag_def butlast_conv_take)
  have c: "push_all [v1, v2, v3, v4, v5, v6, v7] lags = [v7, v6, v5, v4, v3, v2, v1]"
    using push_all_take [of "[v1, v2, v3, v4, v5, v6, v7]" lags] assms by simp
  have d: "fst (river_loop ex um last_up last_river up_fc)
           = push_all (map snd up_fc) (replicate 7 last_up)"
    using river_loop_shape [of ex um last_up last_river up_fc] by auto
  have len7: "length (push_all ws seed) = 7" if "length seed = 7" for ws seed
  proof -
    from that have "seed \<noteq> []" by auto
    from length_push_all [OF this, of ws] that show ?thesis by simp
  qed
  have e: "length (fst (river_loop ex um last_up last_river up_fc)) = 7"
    unfolding d by (rule len7) simp
  from flood_loop_lags [of ex um df_river last_river "seed_lags hist_upstream hist"
      "seed_lags hist_local hist" "[]" df]
  obtain out' where "flood_loop ex um df_river last_river
              (seed_lags hist_upstream hist, seed_lags hist_local hist, []) df
     = Inr (push_all (map (\<lambda>(d, pred, loc, up). up) df) (seed_lags hist_upstream hist),
            push_all (map (\<lambda>(d, pred, loc, up). loc) df) (seed_lags hist_local hist), out')"
    by blast
  then have f: "\<exists>up_lags local_lags out_rows.
            flood_loop ex um df_river last_river
              (seed_lags hist_upstream hist, seed_lags hist_local hist, []) df
              = Inr (up_lags, local_lags, out_rows) \<and>
            up_lags = push_all (map (\<lambda>(d, pred, loc, up). up) df) (seed_lags hist_upstream hist) \<and>
            local_lags = push_all (map (\<lambda>(d, pred, loc, up). loc) df) (seed_lags hist_local hist) \<and>
            length up_lags = 7 \<and> length local_lags = 7"
    by (simp add: len7 length_seed_lags)
  from a b c d e f show ?thesis by blast
qed

theorem lag_buffer_seven_witness:
  "length (push_all [9, 9, 9] [1, 2, 3, 4, 5, 6, 7]) = 7 \<and>
   push_lag 8 [1, 2, 3, 4, 5, 6, 7] = [8, 1, 2, 3, 4, 5, 6] \<and>
   push_all [11, 12, 13, 14, 15, 16, 17] [1, 2, 3, 4, 5, 6, 7] = [17, 16, 15, 14, 13, 12, 11]"
proof -
  have h: "length [1, 2, 3, 4, 5, 6, 7 :: real] = 7" by simp
  from lag_buffer_seven [OF h, of "[9, 9, 9]" 8 11 12 13 14 15 16 17 ex0 None 0 0 "[]" "[]" "[]" "[]"]
  show ?thesis by simp
qed

section \<open>Missing inputs and missing artifacts\<close>

lemma cells_out_row: "cells (out_row d loc up pred prob) = (d, pred, loc, up)"
  by (simp add: cells_def out_row_def)

lemma flood_loop_rows:
  "\<exists>ul' ll' out'. flood_loop ex um df_river last_river (ul, ll, out) rows = Inr (ul', ll', out @ out')
     \<and> map cells out' = rows"
proof (induction rows arbitrary: ul ll out)
  case Nil
  show ?case by simp
next
  case (Cons row rows)
  obtain d pred loc up where row: "row = (d, pred, loc, up)" by (cases row)
  obtain v where v: "river_lag_1 df_river last_river d = Inr v"
    using river_lag_1_total by blast
  define P where "P = (case um of
                      Some (clf, feat_order) \<Rightarrow>
                        clf (align (flood_feat ex d (push_lag up ul) (push_lag loc ll) v) feat_order)
                    | None \<Rightarrow> heuristic_probability loc up pred 349.5)"
  from Cons.IH [of "push_lag up ul" "push_lag loc ll" "out @ [out_row d loc up pred P]"]
  obtain ul' ll' out' where
    rest: "flood_loop ex um df_river last_river
             (push_lag up ul, push_lag loc ll, out @ [out_row d loc up pred P]) rows
           = Inr (ul', ll', (out @ [out_row d loc up pred P]) @ out')"
    and c: "map cells out' = rows" by blast
  have a: "flood_loop ex um df_river last_river (ul, ll, out) (row # rows)
      = Inr (ul', ll', out @ (out_row d loc up pred P # out'))"
    unfolding row using rest by (simp add: flood_step_eq [OF v] P_def)
  have b: "map cells (out_row d loc up pred P # out') = row # rows"
    by (simp add: c row cells_out_row)
  show ?case
    by (intro exI [of _ ul'] exI [of _ ll'] exI [of _ "out_row d loc up pred P # out'"] conjI a b)
qed

lemma river_main_total:
  assumes "load_model_and_feats (river_model fs) (river_feature_order fs) = Inr um"
  shows "river_main ex fs = Inr (fs\<lparr>predicted_river_level :=
           Some (snd (snd (river_loop ex um (river_last_up (hist_sorted fs))
                             (last_river_of (hist_sorted fs)) (river_up_fc ex fs))))\<rparr>)"
  by (simp add: river_main_def Let_def assms split: prod.split)

lemma river_loop_dates:
  "map fst (snd (snd (river_loop ex um lu lr rows))) = map fst rows"
  using river_loop_shape [of ex um lu lr rows] by auto

lemma flood_main_total:
  assumes load: "load_model_and_feats (flood_model fs) (flood_feature_order fs) = Inr um"
    and local: "forecast_rainfall fs = Some local"
    and river: "predicted_river_level fs = Some river"
  shows "\<exists>out. flood_main ex fs = Inr (fs\<lparr>flood_forecast := Some out\<rparr>) \<and>
           map cells out = merge_forecasts (sort_by_date river) (sort_by_date local) (flood_up fs local)"
proof -
  have l: "load_local_forecast fs = Inr (sort_by_date local)"
    by (simp add: load_local_forecast_def local)
  have u: "flood_load_upstream_forecast fs = Inr (flood_up fs local)"
    by (simp add: flood_load_upstream_forecast_def l flood_up_def split: option.split)
  have r: "load_river_preds fs = Inr (sort_by_date river)"
    by (simp add: load_river_preds_def river)
  let ?df = "merge_forecasts (sort_by_date river) (sort_by_date local) (flood_up fs local)"
  from flood_loop_rows [of ex um "sort_by_date river" "last_river_of (hist_sorted fs)"
      "seed_lags hist_upstream (hist_sorted fs)" "seed_lags hist_local (hist_sorted fs)" "[]" ?df]
  obtain ul' ll' out' where
    loop: "flood_loop ex um (sort_by_date river) (last_river_of (hist_sorted fs))
       (seed_lags hist_upstream (hist_sorted fs), seed_lags hist_local (hist_sorted fs), []) ?df
       = Inr (ul', ll', out')" and c: "map cells out' = ?df"
    by auto
  have "flood_main ex fs = Inr (fs\<lparr>flood_forecast := Some out'\<rparr>)"
    by (simp add: flood_main_def l u r Let_def load loop)
  with c show ?thesis by blast
qed

lemma flood_main_missing:
  assumes "forecast_rainfall fs = None \<or> predicted_river_level fs = None"
  shows "flood_main ex fs = Inl FileNotFoundError"
proof (cases "forecast_rainfall fs")
  case None
  then show ?thesis
    by (simp add: flood_main_def load_local_forecast_def)
next
  case (Some local)
  with assms have r: "predicted_river_level fs = None" by simp
  have l: "load_local_forecast fs = Inr (sort_by_date local)"
    by (simp add: load_local_forecast_def Some)
  have u: "flood_load_upstream_forecast fs = Inr (flood_up fs local)"
    by (simp add: flood_load_upstream_forecast_def l flood_up_def split: option.split)
  show ?thesis
    by (simp add: flood_main_def l u load_river_preds_def r)
qed








text \<open>
  Without the historical table, and without any forecast table either, stage 1 writes five
  predictions; without the historical table and with a local forecast both stages run to
  their end and write their outputs.
\<close>

theorem missing_inputs_counterexample:
  "river_main ex0 no_files
     = Inr (no_files\<lparr>predicted_river_level :=
              Some [(0, 209.7), (1, 209.7), (2, 209.7), (3, 209.7), (4, 209.7)]\<rparr>) \<and>
   predict_steps ex0 (no_files\<lparr>forecast_rainfall := Some [(1, 0)]\<rparr>)
     = Inr (no_files\<lparr>forecast_rainfall := Some [(1, 0)],
                      predicted_river_level := Some [(1, 209.7)],
                      flood_forecast := Some [out_row 1 0 0 209.7 0]\<rparr>)"
proof -
  have upt: "[0..<5] = [0, 1, 2, 3, 4]"
    by (simp add: upt_rec)
  have fc0: "river_up_fc ex0 no_files = [(0, 0), (1, 0), (2, 0), (3, 0), (4, 0)]"
    by (simp add: river_up_fc_def river_load_upstream_forecast_def no_files_def HORIZON_def upt
        ex0_def sort_by_date_def)
  have a: "river_main ex0 no_files
     = Inr (no_files\<lparr>predicted_river_level :=
              Some [(0, 209.7), (1, 209.7), (2, 209.7), (3, 209.7), (4, 209.7)]\<rparr>)"
    unfolding river_main_def fc0
    by (simp add: hist_sorted_def river_last_up_def last_river_of_def load_model_and_feats_def
        no_files_def river_loop_def river_step_def heuristic_river_def roll_def push_lag_def
        replicate_7 Let_def)
  let ?F = "no_files\<lparr>forecast_rainfall := Some [(1, 0)]\<rparr>"
  have fc1: "river_up_fc ex0 ?F = [(1, 0)]"
    by (simp add: river_up_fc_def river_load_upstream_forecast_def no_files_def HORIZON_def
        overlap_fit_def sort_by_date_def)
  have r: "river_main ex0 ?F = Inr (?F\<lparr>predicted_river_level := Some [(1, 209.7)]\<rparr>)"
    unfolding river_main_def fc1
    by (simp add: hist_sorted_def river_last_up_def last_river_of_def load_model_and_feats_def
        no_files_def river_loop_def river_step_def heuristic_river_def roll_def push_lag_def
        replicate_7 Let_def)
  let ?F' = "?F\<lparr>predicted_river_level := Some [(1, 209.7)]\<rparr>"
  have h: "\<not> (exists (flood_model ?F') \<and> exists (flood_feature_order ?F'))"
    by (simp add: no_files_def)
  have up: "flood_up ?F' [(1, 0)] = [(1, 0)]"
    by (simp add: flood_up_def sort_by_date_def no_files_def)
  have df: "merge_forecasts [(1, 209.7)] [(1, 0)] [(1, 0)] = [(1, 209.7, 0, 0)]"
    by (simp add: merge_forecasts_def merge_left_def fillna_def)
  have row: "heuristic_row (1, 209.7, 0, 0) = out_row 1 0 0 209.7 0"
    by (simp add: heuristic_row_def heuristic_probability_def Let_def)
  have f: "flood_main ex0 ?F' = Inr (?F'\<lparr>flood_forecast := Some [out_row 1 0 0 209.7 0]\<rparr>)"
    using flood_main_heuristic [OF h, of "[(1, 0)]" "[(1, 209.7)]" ex0]
    by (simp add: up sort_by_date_def df row)
  show ?thesis
    by (simp add: a predict_steps_def r f)
qed

lemma seed_lags_Nil: "seed_lags cell [] = replicate 7 0"
  by (simp add: seed_lags_def replicate_7 upt_rec)

text \<open>
  C8, as the code behaves. Stage 2 aborts with \<open>FileNotFoundError\<close>, before anything is written,
  when the local forecast (or stage 1's output) is absent. Stage 1 never aborts for a
  missing table: whenever its artifacts load it writes one prediction per day of its
  horizon, which is five days of zero rain from today when both forecasts are absent.
  An absent historical table is not fatal for either stage: the lags and the last level are
  seeded with zeros, and stage 2 writes a row for every row of its merged table whenever
  its two input tables are present and its artifacts load.
\<close>

theorem missing_inputs:
  "(forecast_rainfall fs = None \<or> predicted_river_level fs = None \<longrightarrow>
      flood_main ex fs = Inl FileNotFoundError) \<and>
   (load_model_and_feats (river_model fs) (river_feature_order fs) = Inr um \<longrightarrow>
      (\<exists>preds. river_main ex fs = Inr (fs\<lparr>predicted_river_level := Some preds\<rparr>) \<and>
               map fst preds = map fst (river_up_fc ex fs))) \<and>
   (load_model_and_feats (flood_model fs) (flood_feature_order fs) = Inr um' \<and>
    forecast_rainfall fs = Some local \<and> predicted_river_level fs = Some river \<longrightarrow>
      (\<exists>out. flood_main ex fs = Inr (fs\<lparr>flood_forecast := Some out\<rparr>) \<and>
             map cells out = merge_forecasts (sort_by_date river) (sort_by_date local) (flood_up fs local))) \<and>
   (cleaned_data fs = None \<longrightarrow>
      river_last_up (hist_sorted fs) = 0 \<and> last_river_of (hist_sorted fs) = 0 \<and>
      seed_lags hist_upstream (hist_sorted fs) = replicate 7 0 \<and>
      seed_lags hist_local (hist_sorted fs) = replicate 7 0) \<and>
   (upstream_forecast_gfs fs = None \<and> forecast_rainfall fs = None \<longrightarrow>
      river_up_fc ex fs = map (\<lambda>i. (utc_today ex + int i, 0)) [0..<5])"
proof (intro conjI impI)
  assume "forecast_rainfall fs = None \<or> predicted_river_level fs = None"
  then show "flood_main ex fs = Inl FileNotFoundError"
    by (rule flood_main_missing)
next
  assume "load_model_and_feats (river_model fs) (river_feature_order fs) = Inr um"
  then have m: "river_main ex fs = Inr (fs\<lparr>predicted_river_level :=
           Some (snd (snd (river_loop ex um (river_last_up (hist_sorted fs))
                             (last_river_of (hist_sorted fs)) (river_up_fc ex fs))))\<rparr>)"
    by (rule river_main_total)
  show "\<exists>preds. river_main ex fs = Inr (fs\<lparr>predicted_river_level := Some preds\<rparr>) \<and>
               map fst preds = map fst (river_up_fc ex fs)"
    by (intro exI conjI, rule m, rule river_loop_dates)
next
  assume "load_model_and_feats (flood_model fs) (flood_feature_order fs) = Inr um' \<and>
    forecast_rainfall fs = Some local \<and> predicted_river_level fs = Some river"
  then show "\<exists>out. flood_main ex fs = Inr (fs\<lparr>flood_forecast := Some out\<rparr>) \<and>
             map cells out = merge_forecasts (sort_by_date river) (sort_by_date local) (flood_up fs local)"
    using flood_main_total by blast
next
  assume "cleaned_data fs = None"
  then have "hist_sorted fs = []" by (simp add: hist_sorted_def)
  then show "river_last_up (hist_sorted fs) = 0" "last_river_of (hist_sorted fs) = 0"
    "seed_lags hist_upstream (hist_sorted fs) = replicate 7 0"
    "seed_lags hist_local (hist_sorted fs) = replicate 7 0"
    by (simp_all add: river_last_up_def last_river_of_def seed_lags_Nil)
next
  assume a: "upstream_forecast_gfs fs = None \<and> forecast_rainfall fs = None"
  have "sorted (map fst (map (\<lambda>i. (utc_today ex + int i, 0::real)) [0..<5]))"
    by (simp add: sorted_iff_nth_mono o_def)
  then have "sort_by_date (map (\<lambda>i. (utc_today ex + int i, 0::real)) [0..<5])
      = map (\<lambda>i. (utc_today ex + int i, 0)) [0..<5]"
    unfolding sort_by_date_def by (rule sort_key_id_if_sorted)
  then show "river_up_fc ex fs = map (\<lambda>i. (utc_today ex + int i, 0)) [0..<5]"
    using a by (simp add: river_up_fc_def river_load_upstream_forecast_def HORIZON_def)
qed

theorem missing_inputs_witness:
  "flood_main ex0 no_files = Inl FileNotFoundError \<and>
   (\<exists>preds. river_main ex0 no_files = Inr (no_files\<lparr>predicted_river_level := Some preds\<rparr>) \<and>
            map fst preds = [0, 1, 2, 3, 4]) \<and>
   seed_lags hist_upstream (hist_sorted no_files) = [0, 0, 0, 0, 0, 0, 0]"
proof -
  have l: "load_model_and_feats (river_model no_files) (river_feature_order no_files) = Inr None"
    by (simp add: load_model_and_feats_def no_files_def)
  have n: "forecast_rainfall no_files = None" "upstream_forecast_gfs no_files = None"
    "cleaned_data no_files = None"
    by (simp_all add: no_files_def)
  have upt: "[0..<5] = [0, 1, 2, 3, 4]"
    by (simp add: upt_rec)
  note inst = missing_inputs [of no_files ex0 None None "[]" "[]"]
  from inst n have a: "flood_main ex0 no_files = Inl FileNotFoundError"
    by blast
  from inst l have b: "\<exists>preds. river_main ex0 no_files = Inr (no_files\<lparr>predicted_river_level := Some preds\<rparr>) \<and>
               map fst preds = map fst (river_up_fc ex0 no_files)"
    by blast
  from inst n have c: "seed_lags hist_upstream (hist_sorted no_files) = replicate 7 0"
    by blast
  from inst n have "river_up_fc ex0 no_files = map (\<lambda>i. (utc_today ex0 + int i, 0)) [0..<5]"
    by blast
  then have d: "map fst (river_up_fc ex0 no_files) = [0, 1, 2, 3, 4]"
    by (simp add: upt ex0_def)
  from a b c show ?thesis
    unfolding d replicate_7 by blast
qed

section \<open>A run without the upstream forecast\<close>

lemma map_insort_key: "map f (insort_key f x xs) = insort (f x) (map f xs)"
  by (induction xs) auto

lemma map_sort_key: "map f (sort_key f xs) = sort (map f xs)"
  by (induction xs) (auto simp: map_insort_key)

lemma filter_key_distinct:
  "distinct (map fst right) \<Longrightarrow>
   filter (\<lambda>r. fst r = d) right = (case map_of right d of None \<Rightarrow> [] | Some v \<Rightarrow> [(d, v)])"
proof (induction right)
  case Nil
  show ?case by simp
next
  case (Cons r right)
  obtain k v where r: "r = (k, v)" by (cases r)
  from Cons.prems have k: "k \<notin> fst ` set right" and dist: "distinct (map fst right)"
    by (simp_all add: r)
  note IH = Cons.IH [OF dist]
  show ?case
  proof (cases "k = d")
    case True
    with k have "map_of right d = None" by (simp add: map_of_eq_None_iff)
    with IH have "filter (\<lambda>r. fst r = d) right = []" by simp
    with True show ?thesis by (simp add: r)
  next
    case False
    with IH show ?thesis by (simp add: r)
  qed
qed

lemma merge_left_distinct:
  assumes "distinct (map fst right)"
  shows "merge_left left right = map (\<lambda>(d, a). (d, a, map_of right d)) left"
proof -
  have one: "(case filter (\<lambda>r. fst r = d) right of
               [] \<Rightarrow> [(d, a, None)]
             | ms \<Rightarrow> map (\<lambda>r. (d, a, Some (snd r))) ms) = [(d, a, map_of right d)]" for d and a :: 'a
    unfolding filter_key_distinct [OF assms] by (cases "map_of right d") simp_all
  show ?thesis
    unfolding merge_left_def by (induction left) (auto simp: one)
qed

lemma merge_forecasts_distinct:
  assumes "distinct (map fst df_local)" and "distinct (map fst df_up)"
  shows "map fst (merge_forecasts df_river df_local df_up) = map fst df_river"
  unfolding merge_forecasts_def merge_left_distinct [OF assms(1)] merge_left_distinct [OF assms(2)]
  by (induction df_river) auto


lemma river_up_fc_proxy:
  assumes up: "upstream_forecast_gfs fs = None" and local: "forecast_rainfall fs = Some local"
  shows "map fst (river_up_fc ex fs) = sort (map fst (take HORIZON local))"
proof -
  obtain a b where ab: "overlap_fit ex fs = (a, b)" by (cases "overlap_fit ex fs")
  let ?X = "map (\<lambda>(d, local_rain). (d, max 0 (a * local_rain + b))) (take HORIZON local)"
  have load: "river_load_upstream_forecast ex fs = ?X"
    by (simp add: river_load_upstream_forecast_def up local ab)
  have len: "length (sort_by_date ?X) \<le> HORIZON"
    by (simp add: sort_by_date_def)
  have keys: "map fst ?X = map fst (take HORIZON local)"
    by (induction "take HORIZON local") (auto simp: case_prod_beta)
  have "river_up_fc ex fs = sort_by_date ?X"
    unfolding river_up_fc_def load using len by simp
  then have "map fst (river_up_fc ex fs) = sort (map fst ?X)"
    by (simp only: sort_by_date_def map_sort_key)
  then show ?thesis
    unfolding keys .
qed

text \<open>
  C2, as the code behaves. When the upstream forecast is absent, the local forecast is present, not
  empty and has one row per date, and the artifacts of both stages load, both stages run to
  their end. Stage 2 substitutes zeros over exactly the dates of the local forecast.
  Stage 1 substitutes the clipped linear proxy of the local rain over the first
  \<open>HORIZON = 5\<close> rows of the local forecast. The output has one row for each date of
  these first rows, in ascending order, hence \<open>min 5 n\<close> rows for a local forecast of
  \<open>n\<close> rows, and every output row has \<open>upstream_rain = 0\<close>.
\<close>

theorem upstream_absent:
  assumes up: "upstream_forecast_gfs fs = None"
    and local: "forecast_rainfall fs = Some local"
    and dist: "distinct (map fst local)"
    and ne: "local \<noteq> []"
    and l1: "load_model_and_feats (river_model fs) (river_feature_order fs) = Inr um1"
    and l2: "load_model_and_feats (flood_model fs) (flood_feature_order fs) = Inr um2"
  shows "\<exists>preds out.
           predict_steps ex fs
             = Inr (fs\<lparr>predicted_river_level := Some preds, flood_forecast := Some out\<rparr>) \<and>
           flood_load_upstream_forecast fs = Inr (map (\<lambda>d. (d, 0)) (sort (map fst local))) \<and>
           river_load_upstream_forecast ex fs
             = map (\<lambda>(d, local_rain). (d, max 0 (fst (overlap_fit ex fs) * local_rain
                                                   + snd (overlap_fit ex fs))))
                   (take HORIZON local) \<and>
           map fst (river_up_fc ex fs) = sort (map fst (take HORIZON local)) \<and>
           map fst preds = sort (map fst (take HORIZON local)) \<and>
           map row_date out = sort (map fst (take HORIZON local)) \<and>
           length out = min HORIZON (length local) \<and> 0 < length out \<and>
           (\<forall>r \<in> set out. row_upstream_rain r = 0)"
proof -
  let ?days = "sort (map fst (take HORIZON local))"
  let ?preds = "snd (snd (river_loop ex um1 (river_last_up (hist_sorted fs))
                             (last_river_of (hist_sorted fs)) (river_up_fc ex fs)))"
  let ?fs' = "fs\<lparr>predicted_river_level := Some ?preds\<rparr>"
  let ?ups = "map (\<lambda>(d, local_rain). (d, 0::real)) (sort_by_date local)"
  have fc: "map fst (river_up_fc ex fs) = ?days"
    using up local by (rule river_up_fc_proxy)
  have proxy: "river_load_upstream_forecast ex fs
             = map (\<lambda>(d, local_rain). (d, max 0 (fst (overlap_fit ex fs) * local_rain
                                                   + snd (overlap_fit ex fs))))
                   (take HORIZON local)"
    by (simp add: river_load_upstream_forecast_def up local case_prod_beta)
  have r: "river_main ex fs = Inr ?fs'"
    using l1 by (rule river_main_total)
  have pdays: "map fst ?preds = ?days"
    by (simp add: river_loop_dates fc)
  have fup: "flood_up ?fs' local = ?ups"
    by (simp add: flood_up_def up)
  have ups_keys: "map fst ?ups = sort (map fst local)"
    by (simp add: sort_by_date_def map_sort_key [symmetric] case_prod_beta o_def)
  have ups_eq: "?ups = map (\<lambda>d. (d, 0)) (sort (map fst local))"
    by (simp add: sort_by_date_def map_sort_key [symmetric] case_prod_beta o_def)
  have lup: "flood_load_upstream_forecast fs = Inr (map (\<lambda>d. (d, 0)) (sort (map fst local)))"
    unfolding ups_eq [symmetric]
    by (simp add: flood_load_upstream_forecast_def up load_local_forecast_def local)
  have "load_model_and_feats (flood_model ?fs') (flood_feature_order ?fs') = Inr um2"
    using l2 by simp
  moreover have "forecast_rainfall ?fs' = Some local" using local by simp
  moreover have "predicted_river_level ?fs' = Some ?preds" by simp
  ultimately obtain out where
    f: "flood_main ex ?fs' = Inr (?fs'\<lparr>flood_forecast := Some out\<rparr>)"
    and c: "map cells out = merge_forecasts (sort_by_date ?preds) (sort_by_date local) ?ups"
    using flood_main_total [of ?fs' um2 local ?preds ex] unfolding fup by blast
  have steps: "predict_steps ex fs
             = Inr (fs\<lparr>predicted_river_level := Some ?preds, flood_forecast := Some out\<rparr>)"
    by (simp add: predict_steps_def r f)
  have d1: "distinct (map fst (sort_by_date local))"
    using dist by (simp add: sort_by_date_def map_sort_key)
  have d2: "distinct (map fst ?ups)"
    unfolding ups_keys using dist by simp
  have "map fst (map cells out) = map fst (sort_by_date ?preds)"
    unfolding c using d1 d2 by (rule merge_forecasts_distinct)
  also have "\<dots> = sort ?days"
    by (simp only: sort_by_date_def map_sort_key pdays)
  also have "\<dots> = ?days"
    by (rule sorted_sort_id) simp
  finally have odays: "map row_date out = ?days"
    by (simp add: cells_def o_def)
  have "length out = length ?days"
    using odays by (metis length_map)
  then have len: "length out = min HORIZON (length local)"
    by (simp add: min.commute)
  have pos: "0 < length out"
    using len ne by (simp add: HORIZON_def)
  have zero: "row_upstream_rain r = 0" if "r \<in> set out" for r
  proof -
    from that have "cells r \<in> set (map cells out)" by simp
    then have "(row_date r, row_pred_river_level r, row_local_rain r, row_upstream_rain r)
        \<in> set (merge_forecasts (sort_by_date ?preds) (sort_by_date local) ?ups)"
      unfolding c by (simp add: cells_def)
    then have "(row_date r, row_upstream_rain r) \<in> set ?ups \<or> row_upstream_rain r = 0"
      unfolding merge_forecasts_set by blast
    then show ?thesis by auto
  qed
  show ?thesis
    by (intro exI [of _ ?preds] exI [of _ out] conjI steps lup proxy fc pdays odays len pos ballI zero)
qed


theorem upstream_absent_witness:
  "\<exists>preds out.
     predict_steps ex0 (no_files\<lparr>forecast_rainfall := Some [(2, 1), (1, 3)]\<rparr>)
       = Inr (no_files\<lparr>forecast_rainfall := Some [(2, 1), (1, 3)],
                        predicted_river_level := Some preds, flood_forecast := Some out\<rparr>) \<and>
     map fst preds = [1, 2] \<and> map row_date out = [1, 2] \<and> length out = 2 \<and>
     list_all (\<lambda>r. row_upstream_rain r = 0) out"
proof -
  let ?F = "no_files\<lparr>forecast_rainfall := Some [(2, 1), (1, 3)]\<rparr>"
  have h1: "upstream_forecast_gfs ?F = None" by (simp add: no_files_def)
  have h2: "forecast_rainfall ?F = Some [(2, 1), (1, 3)]" by simp
  have h3: "distinct (map fst [(2::int, 1::real), (1, 3)])" by simp
  have h4: "[(2::int, 1::real), (1, 3)] \<noteq> []" by simp
  have h5: "load_model_and_feats (river_model ?F) (river_feature_order ?F) = Inr None"
    by (simp add: load_model_and_feats_def no_files_def)
  have h6: "load_model_and_feats (flood_model ?F) (flood_feature_order ?F) = Inr None"
    by (simp add: load_model_and_feats_def no_files_def)
  have days: "sort (map fst (take HORIZON [(2::int, 1::real), (1, 3)])) = [1, 2]"
    by (simp add: HORIZON_def)
  from upstream_absent [OF h1 h2 h3 h4 h5 h6, of ex0] obtain preds out where
    a: "predict_steps ex0 ?F
             = Inr (?F\<lparr>predicted_river_level := Some preds, flood_forecast := Some out\<rparr>)"
    and b: "map fst preds = sort (map fst (take HORIZON [(2::int, 1::real), (1, 3)]))"
    and c: "map row_date out = sort (map fst (take HORIZON [(2::int, 1::real), (1, 3)]))"
    and d: "length out = min HORIZON (length [(2::int, 1::real), (1, 3)])"
    and e: "\<forall>r \<in> set out. row_upstream_rain r = 0"
    by blast
  have d': "length out = 2" using d by (simp add: HORIZON_def)
  have e': "list_all (\<lambda>r. row_upstream_rain r = 0) out"
    using e by (simp add: list_all_iff)
  show ?thesis
    by (intro exI [of _ preds] exI [of _ out] conjI a b [unfolded days] c [unfolded days] d' e')
qed

text \<open>
  A local forecast of six days, with no upstream forecast: both stages run, and the
  output has five rows, not six, because stage 1 keeps the first \<open>HORIZON\<close> rows.
\<close>

theorem upstream_absent_counterexample:
  "predict_steps ex0
     (no_files\<lparr>forecast_rainfall := Some [(1, 0), (2, 0), (3, 0), (4, 0), (5, 0), (6, 0)]\<rparr>)
   = Inr (no_files\<lparr>forecast_rainfall := Some [(1, 0), (2, 0), (3, 0), (4, 0), (5, 0), (6, 0)],
            predicted_river_level := Some [(1, 209.7), (2, 209.7), (3, 209.7), (4, 209.7), (5, 209.7)],
            flood_forecast := Some [out_row 1 0 0 209.7 0, out_row 2 0 0 209.7 0,
                                    out_row 3 0 0 209.7 0, out_row 4 0 0 209.7 0,
                                    out_row 5 0 0 209.7 0]\<rparr>) \<and>
   length [out_row 1 0 0 209.7 0, out_row 2 0 0 209.7 0, out_row 3 0 0 209.7 0,
           out_row 4 0 0 209.7 0, out_row 5 0 0 209.7 0]
     \<noteq> length [(1::int, 0::real), (2, 0), (3, 0), (4, 0), (5, 0), (6, 0)]"
proof -
  let ?local = "[(1::int, 0::real), (2, 0), (3, 0), (4, 0), (5, 0), (6, 0)]"
  let ?F = "no_files\<lparr>forecast_rainfall := Some ?local\<rparr>"
  let ?preds = "[(1::int, 209.7::real), (2, 209.7), (3, 209.7), (4, 209.7), (5, 209.7)]"
  have fc: "river_up_fc ex0 ?F = [(1, 0), (2, 0), (3, 0), (4, 0), (5, 0)]"
    by (simp add: river_up_fc_def river_load_upstream_forecast_def no_files_def HORIZON_def
        overlap_fit_def sort_by_date_def)
  have r: "river_main ex0 ?F = Inr (?F\<lparr>predicted_river_level := Some ?preds\<rparr>)"
    unfolding river_main_def fc
    by (simp add: hist_sorted_def river_last_up_def last_river_of_def load_model_and_feats_def
        no_files_def river_loop_def river_step_def heuristic_river_def roll_def push_lag_def
        replicate_7 Let_def)
  let ?F' = "?F\<lparr>predicted_river_level := Some ?preds\<rparr>"
  have h: "\<not> (exists (flood_model ?F') \<and> exists (flood_feature_order ?F'))"
    by (simp add: no_files_def)
  have up: "flood_up ?F' ?local = ?local"
    by (simp add: flood_up_def sort_by_date_def no_files_def)
  have s1: "sort_by_date ?preds = ?preds" by (simp add: sort_by_date_def)
  have s2: "sort_by_date ?local = ?local" by (simp add: sort_by_date_def)
  have df: "merge_forecasts ?preds ?local ?local
      = [(1, 209.7, 0, 0), (2, 209.7, 0, 0), (3, 209.7, 0, 0), (4, 209.7, 0, 0), (5, 209.7, 0, 0)]"
    by (simp add: merge_forecasts_def merge_left_def fillna_def)
  have row: "heuristic_row (d, 209.7, 0, 0) = out_row d 0 0 209.7 0" for d
    by (simp add: heuristic_row_def heuristic_probability_def Let_def)
  have f: "flood_main ex0 ?F' = Inr (?F'\<lparr>flood_forecast :=
      Some [out_row 1 0 0 209.7 0, out_row 2 0 0 209.7 0, out_row 3 0 0 209.7 0,
            out_row 4 0 0 209.7 0, out_row 5 0 0 209.7 0]\<rparr>)"
    using flood_main_heuristic [OF h, of ?local ?preds ex0]
    unfolding up s1 s2 df by (simp add: row)
  show ?thesis
    by (simp add: predict_steps_def r f)
qed

end
